theory Spec2Isabelle
  imports Main
begin

section \<open>Route groups of the router (group.go)\<close>

text \<open>
  The development embeds \<^verbatim>\<open>group.go\<close>: the type \<^verbatim>\<open>RouteGroup\<close> with its route-creating
  methods, \<^verbatim>\<open>Group\<close>, \<^verbatim>\<open>Use\<close>, \<^verbatim>\<open>Any\<close>, \<^verbatim>\<open>To\<close> and \<^verbatim>\<open>RegisterController\<close>.
  Go values that the code shares or mutates live in explicit stores: the backing arrays
  of slices, the route groups (the code handles \<^verbatim>\<open>*RouteGroup\<close>), the routes, and the
  variables that function literals capture. Each store is a function from addresses to
  contents together with the next free address; an address below that counter is live.
\<close>

subsection \<open>Panics, reflected values, handlers\<close>

text \<open>
  A run-time panic is a value. \<open>IndexOutOfRange i n\<close> is Go's
  \<^verbatim>\<open>index out of range [i] with length n\<close>; \<open>InterfaceConversion\<close> a failed type
  assertion; \<open>CallArgCount\<close> the panic of \<^verbatim>\<open>reflect.Value.Call\<close> on a wrong number of
  arguments; \<open>NilFunc\<close> a call of a nil function value; \<open>Raised\<close> a panic of user code.
\<close>

datatype panic =
    IndexOutOfRange nat nat
  | InterfaceConversion
  | CallArgCount
  | NilFunc
  | Raised string

text \<open>
  \<^verbatim>\<open>reflect.Value\<close>, for the values this file passes to and receives from
  \<^verbatim>\<open>Func.Call\<close>: the controller, a request context, a value of interface type
  \<^verbatim>\<open>error\<close> (\<open>None\<close> is nil), a string, an integer.
\<close>

datatype ('c, 'x, 'e) Value =
    VController 'c
  | VContext 'x
  | VError "'e option"
  | VString string
  | VInt int

text \<open>
  \<^verbatim>\<open>reflect.Type\<close> of a parameter or result, as far as the code reads it:
  what \<^verbatim>\<open>Name()\<close> and \<^verbatim>\<open>String()\<close> return.
\<close>

record gotype =
  type_Name :: string
  type_String :: string

text \<open>
  \<^verbatim>\<open>reflect.Method\<close>: \<open>m_In\<close> and \<open>m_Out\<close> are the parameter and result types of
  \<^verbatim>\<open>method.Type\<close> (the receiver is parameter 0), \<open>m_Variadic\<close> is
  \<^verbatim>\<open>method.Type.IsVariadic()\<close>, \<open>m_Func\<close> is \<^verbatim>\<open>method.Func\<close>, the method as a function
  of its receiver and arguments.
\<close>

record ('c, 'x, 'e) Method =
  m_Name :: string
  m_In :: "gotype list"
  m_Out :: "gotype list"
  m_Variadic :: bool
  m_Func :: "('c, 'x, 'e) Value list \<Rightarrow> panic + ('c, 'x, 'e) Value list"

text \<open>
  The argument of \<^verbatim>\<open>RegisterController\<close>: \<open>t_Name\<close> is \<^verbatim>\<open>reflect.TypeOf(controller).Name()\<close>,
  \<open>t_Methods\<close> the method set in the order of \<^verbatim>\<open>t.Method(i)\<close>, \<open>receiver\<close> the value itself.
\<close>

record ('c, 'x, 'e) Controller =
  t_Name :: string
  t_Methods :: "('c, 'x, 'e) Method list"
  receiver :: 'c

text \<open>
  \<^verbatim>\<open>Handler\<close> is \<^verbatim>\<open>func(*Context) error\<close>. A handler is nil, a function supplied by
  the application, or the function literal of \<^verbatim>\<open>RegisterController\<close> (lines 101-111).
  That literal captures the parameter \<^verbatim>\<open>controller\<close>, which is never assigned, and the
  variable \<^verbatim>\<open>method\<close>; Go captures variables by reference, so the closure holds the
  address of the variable and reads it when it runs.
\<close>

datatype ('c, 'x, 'e) Handler =
    NilHandler
  | GoFunc "'x \<Rightarrow> panic + 'e option"
  | Closure 'c nat

subsection \<open>Slices, groups, routes, the state\<close>

text \<open>
  A slice is nil or a window of \<open>len\<close> elements at the start of a backing array; its
  capacity is the length of that array. The code of this file never reslices.
\<close>

datatype slice = NilSlice | Slice nat nat

record RouteGroup =
  prefix :: string
  router :: nat
  handlers :: slice

text \<open>
  Modelled from the spec: \<^verbatim>\<open>Route\<close> and \<^verbatim>\<open>newRoute\<close> are declared in a file of the
  repository that is not part of the sources at hand. Section 4.1 of the specification: a
  route is created "scoped to this group at prefix + suffix"; section 6: \<^verbatim>\<open>add(method,
  handlers)\<close> is the "low-level registration for one method". A route is its path and
  its group; a registration is recorded as the call that \<^verbatim>\<open>add\<close> received.
\<close>

record Route =
  path :: string
  group :: nat

record ('c, 'x, 'e) registration =
  reg_route :: nat
  reg_method :: string
  reg_handlers :: "('c, 'x, 'e) Handler list"

text \<open>
  \<open>growcap old need\<close> is the capacity that the run time chooses when \<^verbatim>\<open>append\<close> has
  to reallocate; Go promises only that it is at least \<open>need\<close>.
\<close>

record ('c, 'x, 'e) state =
  arrays :: "nat \<Rightarrow> ('c, 'x, 'e) Handler list"
  narrays :: nat
  groups :: "nat \<Rightarrow> RouteGroup"
  ngroups :: nat
  routes :: "nat \<Rightarrow> Route"
  nroutes :: nat
  regs :: "('c, 'x, 'e) registration list"
  vars :: "nat \<Rightarrow> ('c, 'x, 'e) Method"
  nvars :: nat
  growcap :: "nat \<Rightarrow> nat \<Rightarrow> nat"

subsection \<open>Go's slice primitives\<close>

fun slice_len :: "slice \<Rightarrow> nat" where
  "slice_len NilSlice = 0"
| "slice_len (Slice a n) = n"

fun slice_cap :: "('c, 'x, 'e) state \<Rightarrow> slice \<Rightarrow> nat" where
  "slice_cap st NilSlice = 0"
| "slice_cap st (Slice a n) = length (arrays st a)"

fun elems :: "('c, 'x, 'e) state \<Rightarrow> slice \<Rightarrow> ('c, 'x, 'e) Handler list" where
  "elems st NilSlice = []"
| "elems st (Slice a n) = take n (arrays st a)"

definition alloc_array ::
  "('c, 'x, 'e) Handler list \<Rightarrow> ('c, 'x, 'e) state \<Rightarrow> nat \<times> ('c, 'x, 'e) state" where
  "alloc_array xs st =
     (narrays st, st\<lparr>arrays := (arrays st)(narrays st := xs), narrays := narrays st + 1\<rparr>)"

text \<open>
  The slice that a call \<^verbatim>\<open>f(a, b, ...)\<close> passes for a variadic parameter: nil when there
  is no actual argument, otherwise a new slice over a new array of exactly the arguments.
\<close>

definition variadic ::
  "('c, 'x, 'e) Handler list \<Rightarrow> ('c, 'x, 'e) state \<Rightarrow> slice \<times> ('c, 'x, 'e) state" where
  "variadic xs st =
     (if xs = [] then (NilSlice, st)
      else (case alloc_array xs st of (a, st') \<Rightarrow> (Slice a (length xs), st')))"

text \<open>\<^verbatim>\<open>make([]Handler, n)\<close>: a new array of \<open>n\<close> nil handlers.\<close>

definition make_slice :: "nat \<Rightarrow> ('c, 'x, 'e) state \<Rightarrow> slice \<times> ('c, 'x, 'e) state" where
  "make_slice n st =
     (case alloc_array (replicate n NilHandler) st of (a, st') \<Rightarrow> (Slice a n, st'))"

text \<open>\<^verbatim>\<open>copy(dst, src)\<close>: the first \<open>min (len dst) (len src)\<close> elements are overwritten.\<close>

fun copy_slice :: "slice \<Rightarrow> slice \<Rightarrow> ('c, 'x, 'e) state \<Rightarrow> ('c, 'x, 'e) state" where
  "copy_slice NilSlice src st = st"
| "copy_slice (Slice a n) src st =
     (let xs = elems st src; k = min n (length xs)
      in st\<lparr>arrays := (arrays st)(a := take k xs @ drop k (arrays st a))\<rparr>)"

text \<open>
  \<^verbatim>\<open>append(s, xs...)\<close>: when the capacity suffices the elements are written into the
  backing array of \<open>s\<close>, behind its length, and the result shares that array; otherwise a
  new array is allocated.
\<close>

definition append_slice ::
  "slice \<Rightarrow> ('c, 'x, 'e) Handler list \<Rightarrow> ('c, 'x, 'e) state \<Rightarrow> slice \<times> ('c, 'x, 'e) state" where
  "append_slice s xs st =
     (let n = slice_len s; need = n + length xs
      in if need \<le> slice_cap st s then
           (case s of
              NilSlice \<Rightarrow> (NilSlice, st)
            | Slice a _ \<Rightarrow>
                (Slice a need,
                 st\<lparr>arrays := (arrays st)
                       (a := take n (arrays st a) @ xs @ drop need (arrays st a))\<rparr>))
         else
           (case alloc_array
                   (elems st s @ xs @
                    replicate (max need (growcap st (slice_cap st s) need) - need) NilHandler) st
            of (a', st') \<Rightarrow> (Slice a' need, st')))"

subsection \<open>Route groups\<close>

definition newRouteGroup ::
  "string \<Rightarrow> nat \<Rightarrow> slice \<Rightarrow> ('c, 'x, 'e) state \<Rightarrow> nat \<times> ('c, 'x, 'e) state" where
  "newRouteGroup pfx rtr hs st =
     (ngroups st,
      st\<lparr>groups := (groups st)(ngroups st := \<lparr>prefix = pfx, router = rtr, handlers = hs\<rparr>),
         ngroups := ngroups st + 1\<rparr>)"

text \<open>Modelled from the spec: \<^verbatim>\<open>newRoute(path, group)\<close>, see \<open>Route\<close> above.\<close>

definition newRoute :: "string \<Rightarrow> nat \<Rightarrow> ('c, 'x, 'e) state \<Rightarrow> nat \<times> ('c, 'x, 'e) state" where
  "newRoute p r st =
     (nroutes st,
      st\<lparr>routes := (routes st)(nroutes st := \<lparr>path = prefix (groups st r) @ p, group = r\<rparr>),
         nroutes := nroutes st + 1\<rparr>)"

text \<open>
  Modelled from the spec: \<^verbatim>\<open>Route.add(method, handlers)\<close>, the registration of one
  method; the call is recorded with the handlers that the slice holds at that moment.
\<close>

definition add :: "nat \<Rightarrow> string \<Rightarrow> slice \<Rightarrow> ('c, 'x, 'e) state \<Rightarrow> ('c, 'x, 'e) state" where
  "add rt method hs st =
     st\<lparr>regs := regs st @ [\<lparr>reg_route = rt, reg_method = method, reg_handlers = elems st hs\<rparr>]\<rparr>"

text \<open>
  Modelled from the spec: the methods \<^verbatim>\<open>Get\<close>, \<^verbatim>\<open>Post\<close>, ... of \<^verbatim>\<open>Route\<close>, which
  register the route for the one HTTP method of their name and return the route.
\<close>

definition Route_method ::
  "string \<Rightarrow> nat \<Rightarrow> slice \<Rightarrow> ('c, 'x, 'e) state \<Rightarrow> nat \<times> ('c, 'x, 'e) state" where
  "Route_method method rt hs st = (rt, add rt method hs st)"

definition Get :: "nat \<Rightarrow> string \<Rightarrow> slice \<Rightarrow> ('c, 'x, 'e) state \<Rightarrow> nat \<times> ('c, 'x, 'e) state" where
  "Get r p hs st = (case newRoute p r st of (rt, st') \<Rightarrow> Route_method ''GET'' rt hs st')"

definition Post :: "nat \<Rightarrow> string \<Rightarrow> slice \<Rightarrow> ('c, 'x, 'e) state \<Rightarrow> nat \<times> ('c, 'x, 'e) state" where
  "Post r p hs st = (case newRoute p r st of (rt, st') \<Rightarrow> Route_method ''POST'' rt hs st')"

definition Put :: "nat \<Rightarrow> string \<Rightarrow> slice \<Rightarrow> ('c, 'x, 'e) state \<Rightarrow> nat \<times> ('c, 'x, 'e) state" where
  "Put r p hs st = (case newRoute p r st of (rt, st') \<Rightarrow> Route_method ''PUT'' rt hs st')"

definition Patch :: "nat \<Rightarrow> string \<Rightarrow> slice \<Rightarrow> ('c, 'x, 'e) state \<Rightarrow> nat \<times> ('c, 'x, 'e) state" where
  "Patch r p hs st = (case newRoute p r st of (rt, st') \<Rightarrow> Route_method ''PATCH'' rt hs st')"

definition Delete :: "nat \<Rightarrow> string \<Rightarrow> slice \<Rightarrow> ('c, 'x, 'e) state \<Rightarrow> nat \<times> ('c, 'x, 'e) state" where
  "Delete r p hs st = (case newRoute p r st of (rt, st') \<Rightarrow> Route_method ''DELETE'' rt hs st')"

definition Connect :: "nat \<Rightarrow> string \<Rightarrow> slice \<Rightarrow> ('c, 'x, 'e) state \<Rightarrow> nat \<times> ('c, 'x, 'e) state" where
  "Connect r p hs st = (case newRoute p r st of (rt, st') \<Rightarrow> Route_method ''CONNECT'' rt hs st')"

definition Head :: "nat \<Rightarrow> string \<Rightarrow> slice \<Rightarrow> ('c, 'x, 'e) state \<Rightarrow> nat \<times> ('c, 'x, 'e) state" where
  "Head r p hs st = (case newRoute p r st of (rt, st') \<Rightarrow> Route_method ''HEAD'' rt hs st')"

definition Options :: "nat \<Rightarrow> string \<Rightarrow> slice \<Rightarrow> ('c, 'x, 'e) state \<Rightarrow> nat \<times> ('c, 'x, 'e) state" where
  "Options r p hs st = (case newRoute p r st of (rt, st') \<Rightarrow> Route_method ''OPTIONS'' rt hs st')"

definition Trace :: "nat \<Rightarrow> string \<Rightarrow> slice \<Rightarrow> ('c, 'x, 'e) state \<Rightarrow> nat \<times> ('c, 'x, 'e) state" where
  "Trace r p hs st = (case newRoute p r st of (rt, st') \<Rightarrow> Route_method ''TRACE'' rt hs st')"

text \<open>
  The loop \<^verbatim>\<open>for _, method := range ms { route.add(method, handlers) }\<close>, which \<^verbatim>\<open>Any\<close>
  and \<^verbatim>\<open>To\<close> share.
\<close>

fun add_each ::
  "nat \<Rightarrow> string list \<Rightarrow> slice \<Rightarrow> ('c, 'x, 'e) state \<Rightarrow> ('c, 'x, 'e) state" where
  "add_each rt [] hs st = st"
| "add_each rt (method # ms) hs st = add_each rt ms hs (add rt method hs st)"

text \<open>
  \<^verbatim>\<open>Any\<close>. The package variable \<^verbatim>\<open>Methods\<close> is declared outside this file and is a
  parameter here.
\<close>

definition Any ::
  "string list \<Rightarrow> nat \<Rightarrow> string \<Rightarrow> slice \<Rightarrow> ('c, 'x, 'e) state \<Rightarrow> nat \<times> ('c, 'x, 'e) state" where
  "Any Methods r p hs st =
     (case newRoute p r st of (route, st') \<Rightarrow> (route, add_each route Methods hs st'))"

text \<open>
  \<^verbatim>\<open>strings.Split(s, sep)\<close> for a separator of one character: the pieces of \<open>s\<close> between
  the separators; a string without separator, the empty one too, is one piece.
\<close>

fun Split :: "string \<Rightarrow> char \<Rightarrow> string list" where
  "Split [] sep = [[]]"
| "Split (c # cs) sep =
     (if c = sep then [] # Split cs sep
      else (case Split cs sep of [] \<Rightarrow> [[c]] | t # ts \<Rightarrow> (c # t) # ts))"

definition To ::
  "nat \<Rightarrow> string \<Rightarrow> string \<Rightarrow> slice \<Rightarrow> ('c, 'x, 'e) state \<Rightarrow> nat \<times> ('c, 'x, 'e) state" where
  "To r methods p hs st =
     (case newRoute p r st of
        (route, st') \<Rightarrow> (route, add_each route (Split methods (CHR '','')) hs st'))"

definition Group ::
  "nat \<Rightarrow> string \<Rightarrow> slice \<Rightarrow> ('c, 'x, 'e) state \<Rightarrow> nat \<times> ('c, 'x, 'e) state" where
  "Group r pfx hs st =
     (case (if slice_len hs = 0 then
              (case make_slice (slice_len (handlers (groups st r))) st of
                 (d, st1) \<Rightarrow> (d, copy_slice d (handlers (groups st r)) st1))
            else (hs, st))
      of (hs', st') \<Rightarrow>
        newRouteGroup (prefix (groups st r) @ pfx) (router (groups st r)) hs' st')"

definition Use :: "nat \<Rightarrow> slice \<Rightarrow> ('c, 'x, 'e) state \<Rightarrow> ('c, 'x, 'e) state" where
  "Use r hs st =
     (case append_slice (handlers (groups st r)) (elems st hs) st of
        (s, st') \<Rightarrow> st'\<lparr>groups := (groups st')(r := (groups st' r)\<lparr>handlers := s\<rparr>)\<rparr>)"

subsection \<open>Calls as the application writes them\<close>

text \<open>
  \<^verbatim>\<open>g.Use(h1, ..., hn)\<close> and \<^verbatim>\<open>g.Group(p, h1, ..., hn)\<close> with the handlers listed at
  the call: Go builds the slice of the variadic parameter, then runs the method.
\<close>

definition Use_call ::
  "nat \<Rightarrow> ('c, 'x, 'e) Handler list \<Rightarrow> ('c, 'x, 'e) state \<Rightarrow> ('c, 'x, 'e) state" where
  "Use_call r xs st = (case variadic xs st of (hs, st') \<Rightarrow> Use r hs st')"

definition Group_call ::
  "nat \<Rightarrow> string \<Rightarrow> ('c, 'x, 'e) Handler list \<Rightarrow> ('c, 'x, 'e) state
     \<Rightarrow> nat \<times> ('c, 'x, 'e) state" where
  "Group_call r pfx xs st = (case variadic xs st of (hs, st') \<Rightarrow> Group r pfx hs st')"

definition Get_call ::
  "nat \<Rightarrow> string \<Rightarrow> ('c, 'x, 'e) Handler list \<Rightarrow> ('c, 'x, 'e) state
     \<Rightarrow> nat \<times> ('c, 'x, 'e) state" where
  "Get_call r p xs st = (case variadic xs st of (hs, st') \<Rightarrow> Get r p hs st')"

text \<open>A sequence of \<^verbatim>\<open>Use\<close> calls, each on the group it names.\<close>

fun Use_calls ::
  "(nat \<times> ('c, 'x, 'e) Handler list) list \<Rightarrow> ('c, 'x, 'e) state \<Rightarrow> ('c, 'x, 'e) state" where
  "Use_calls [] st = st"
| "Use_calls ((r, xs) # calls) st = Use_calls calls (Use_call r xs st)"

text \<open>The handlers that a sequence of \<^verbatim>\<open>Use\<close> calls hands to the group \<open>r\<close>, in order.\<close>

definition used_on :: "nat \<Rightarrow> (nat \<times> 'h list) list \<Rightarrow> 'h list" where
  "used_on r calls = concat (map snd (filter (\<lambda>c. fst c = r) calls))"

text \<open>The handler chain of a group: the elements of its slice.\<close>

definition chain :: "('c, 'x, 'e) state \<Rightarrow> nat \<Rightarrow> ('c, 'x, 'e) Handler list" where
  "chain st r = elems st (handlers (groups st r))"

text \<open>A slice is well formed when its array is allocated and holds its length.\<close>

fun valid_slice :: "('c, 'x, 'e) state \<Rightarrow> slice \<Rightarrow> bool" where
  "valid_slice st NilSlice = True"
| "valid_slice st (Slice a n) = (a < narrays st \<and> n \<le> length (arrays st a))"

definition live_group :: "('c, 'x, 'e) state \<Rightarrow> nat \<Rightarrow> bool" where
  "live_group st r = (r < ngroups st \<and> valid_slice st (handlers (groups st r)))"

subsection \<open>The controller registrar\<close>

text \<open>Indexing a slice of reflected values panics out of range.\<close>

definition index :: "'a list \<Rightarrow> nat \<Rightarrow> panic + 'a" where
  "index xs i = (if i < length xs then Inr (xs ! i) else Inl (IndexOutOfRange i (length xs)))"

text \<open>The test of lines 90-91.\<close>

definition eligible :: "('c, 'x, 'e) Method \<Rightarrow> bool" where
  "eligible method =
     (length (m_Out method) = 1 \<and> type_Name (m_Out method ! 0) = ''error'' \<and>
      length (m_In method) = 2 \<and> type_String (m_In method ! 1) = ''*routing.Context'')"

definition MethodByName ::
  "('c, 'x, 'e) Controller \<Rightarrow> string \<Rightarrow> ('c, 'x, 'e) Method option" where
  "MethodByName c name = find (\<lambda>m. m_Name m = name) (t_Methods c)"

text \<open>
  \<^verbatim>\<open>method.Func.Call(args)\<close>, as \<^verbatim>\<open>reflect.Value.Call\<close> counts its arguments: a
  function that is not variadic takes exactly as many arguments as it has parameters; a
  variadic one takes at least all parameters but the last, so that it may be called without
  its variadic argument. Reflection panics otherwise, and runs the function when the count
  is right. Types are known here by their printed names only, so the comparison of
  argument types with parameter types, which reflection also makes, is left to \<open>m_Func\<close>.
\<close>

definition Call ::
  "('c, 'x, 'e) Method \<Rightarrow> ('c, 'x, 'e) Value list \<Rightarrow> panic + ('c, 'x, 'e) Value list" where
  "Call m args =
     (if m_Variadic m then
        (if length args < length (m_In m) - 1 then Inl CallArgCount else m_Func m args)
      else
        (if length args \<noteq> length (m_In m) then Inl CallArgCount else m_Func m args))"

text \<open>
  Lines 94-100: the URI after the lookup of the sibling \<^verbatim>\<open><Name>Params\<close>. The source
  reads \<^verbatim>\<open>r[1]\<close> under the guard \<^verbatim>\<open>len(r) == 1\<close>; \<^verbatim>\<open>.(string)\<close> is the type assertion.
\<close>

definition params_uri ::
  "('c, 'x, 'e) Controller \<Rightarrow> ('c, 'x, 'e) Method \<Rightarrow> string \<Rightarrow> panic + string" where
  "params_uri c method uri =
     (case MethodByName c (m_Name method @ ''Params'') of
        None \<Rightarrow> Inr uri
      | Some mt \<Rightarrow>
          (case Call mt [VController (receiver c)] of
             Inl p \<Rightarrow> Inl p
           | Inr r \<Rightarrow>
               if length r = 1 then
                 (case index r 1 of
                    Inl p \<Rightarrow> Inl p
                  | Inr v \<Rightarrow>
                      (case v of
                         VString s \<Rightarrow> Inr (uri @ ''/'' @ s)
                       | _ \<Rightarrow> Inl InterfaceConversion))
               else Inr uri))"

text \<open>
  Lines 102-110: the body of the function literal, for the value \<open>method\<close> that the
  captured variable holds when the handler runs.
\<close>

definition adapter ::
  "'c \<Rightarrow> ('c, 'x, 'e) Method \<Rightarrow> 'x \<Rightarrow> panic + 'e option" where
  "adapter controller method ctx =
     (case Call method [VController controller, VContext ctx] of
        Inl p \<Rightarrow> Inl p
      | Inr errVal \<Rightarrow>
          (case index errVal 0 of
             Inl p \<Rightarrow> Inl p
           | Inr v \<Rightarrow>
               (case v of
                  VError None \<Rightarrow> Inr None
                | VError (Some e) \<Rightarrow> Inr (Some e)
                | _ \<Rightarrow> Inl InterfaceConversion)))"

text \<open>Running a handler in a state: a closure reads its captured variable there.\<close>

fun call_handler ::
  "('c, 'x, 'e) state \<Rightarrow> ('c, 'x, 'e) Handler \<Rightarrow> 'x \<Rightarrow> panic + 'e option" where
  "call_handler st NilHandler ctx = Inl NilFunc"
| "call_handler st (GoFunc f) ctx = f ctx"
| "call_handler st (Closure controller v) ctx = adapter controller (vars st v) ctx"

text \<open>\<^verbatim>\<open>method := t.Method(i)\<close> declares a variable in the loop body: a new one each time.\<close>

definition alloc_var ::
  "('c, 'x, 'e) Method \<Rightarrow> ('c, 'x, 'e) state \<Rightarrow> nat \<times> ('c, 'x, 'e) state" where
  "alloc_var m st = (nvars st, st\<lparr>vars := (vars st)(nvars st := m), nvars := nvars st + 1\<rparr>)"

text \<open>
  The loop of \<^verbatim>\<open>RegisterController\<close> over the methods that remain. \<open>Underscore\<close> is
  \<^verbatim>\<open>inflections.Underscore\<close>, a function of another library and a parameter here. The
  result is the panic that ended the scan, if any, and the state reached.
\<close>

fun scan ::
  "string list \<Rightarrow> (string \<Rightarrow> string) \<Rightarrow> nat \<Rightarrow> ('c, 'x, 'e) Controller
     \<Rightarrow> ('c, 'x, 'e) Method list \<Rightarrow> ('c, 'x, 'e) state
     \<Rightarrow> panic option \<times> ('c, 'x, 'e) state" where
  "scan Methods Underscore r c [] st = (None, st)"
| "scan Methods Underscore r c (m # ms) st =
     (case alloc_var m st of
        (method, st1) \<Rightarrow>
          if eligible (vars st1 method) then
            (case params_uri c (vars st1 method)
                    ((''/'' @ Underscore (t_Name c)) @ ''/'' @ Underscore (m_Name (vars st1 method)))
             of Inl p \<Rightarrow> (Some p, st1)
              | Inr uri \<Rightarrow>
                  (case variadic [Closure (receiver c) method] st1 of
                     (hs, st2) \<Rightarrow>
                       (case Any Methods r uri hs st2 of
                          (route, st3) \<Rightarrow> scan Methods Underscore r c ms st3)))
          else scan Methods Underscore r c ms st1)"

definition RegisterController ::
  "string list \<Rightarrow> (string \<Rightarrow> string) \<Rightarrow> nat \<Rightarrow> ('c, 'x, 'e) Controller
     \<Rightarrow> ('c, 'x, 'e) state \<Rightarrow> panic option \<times> ('c, 'x, 'e) state" where
  "RegisterController Methods Underscore r c st = scan Methods Underscore r c (t_Methods c) st"

subsection \<open>Notions used to state the properties\<close>

text \<open>Two slices are apart when they do not share a backing array.\<close>

fun apart :: "slice \<Rightarrow> slice \<Rightarrow> bool" where
  "apart (Slice a n) (Slice b k) = (a \<noteq> b)"
| "apart s s' = True"

text \<open>\<^verbatim>\<open>strings.Join\<close> for a separator of one character, the inverse of \<open>Split\<close>.\<close>

fun Join :: "string list \<Rightarrow> char \<Rightarrow> string" where
  "Join [] sep = []"
| "Join [t] sep = t"
| "Join (t # u # ts) sep = t @ sep # Join (u # ts) sep"

text \<open>The URI of lines 92-93, before the lookup of the \<^verbatim>\<open>Params\<close> sibling.\<close>

definition uri_of ::
  "(string \<Rightarrow> string) \<Rightarrow> ('c, 'x, 'e) Controller \<Rightarrow> ('c, 'x, 'e) Method \<Rightarrow> string" where
  "uri_of Underscore c m = ''/'' @ Underscore (t_Name c) @ ''/'' @ Underscore (m_Name m)"

text \<open>
  The state after one iteration of the scan that reaches \<^verbatim>\<open>r.Any\<close>: the variable
  \<^verbatim>\<open>method\<close>, the slice of the variadic call, the route and its registrations.
\<close>

definition register_one ::
  "string list \<Rightarrow> nat \<Rightarrow> string \<Rightarrow> 'c \<Rightarrow> ('c, 'x, 'e) Method \<Rightarrow> ('c, 'x, 'e) state
     \<Rightarrow> ('c, 'x, 'e) state" where
  "register_one Methods r uri rc m st =
     snd (Any Methods r uri (fst (variadic [Closure rc (nvars st)] (snd (alloc_var m st))))
            (snd (variadic [Closure rc (nvars st)] (snd (alloc_var m st)))))"

text \<open>
  The registration \<open>rg\<close> is one of iteration \<open>j\<close> of a scan of \<open>ms\<close> that led from \<open>st\<close>
  to \<open>st'\<close>: method \<open>j\<close> passed the test, the only handler of \<open>rg\<close> is the closure over
  the variable of that iteration, the variable holds method \<open>j\<close> in \<open>st'\<close>, and the route
  of \<open>rg\<close> was created by the scan, in the group \<open>r\<close>, at the URI of method \<open>j\<close>.
\<close>

definition own ::
  "(string \<Rightarrow> string) \<Rightarrow> nat \<Rightarrow> ('c, 'x, 'e) Controller \<Rightarrow> ('c, 'x, 'e) Method list
     \<Rightarrow> ('c, 'x, 'e) state \<Rightarrow> ('c, 'x, 'e) state \<Rightarrow> ('c, 'x, 'e) registration
     \<Rightarrow> nat \<Rightarrow> bool" where
  "own Underscore r c ms st st' rg j =
     (j < length ms \<and> eligible (ms ! j) \<and>
      reg_handlers rg = [Closure (receiver c) (nvars st + j)] \<and>
      vars st' (nvars st + j) = ms ! j \<and>
      nroutes st \<le> reg_route rg \<and> reg_route rg < nroutes st' \<and>
      routes st' (reg_route rg) =
        \<lparr>path = prefix (groups st r) @ uri_of Underscore c (ms ! j), group = r\<rparr>)"

subsection \<open>Example data\<close>

text \<open>
  Modelled from the spec: the package variable \<^verbatim>\<open>Methods\<close> is declared in another file
  of the repository; section 6 of the specification lists its entries.
\<close>

definition standard_Methods :: "string list" where
  "standard_Methods =
     [''GET'', ''POST'', ''PUT'', ''PATCH'', ''DELETE'', ''CONNECT'', ''HEAD'', ''OPTIONS'',
      ''TRACE'']"

text \<open>
  Modelled from the spec: the naming convention of section 9, for the examples, in place
  of \<^verbatim>\<open>inflections.Underscore\<close>: lower case, with an underscore before every capital
  letter but the first (\<^verbatim>\<open>UserAccount\<close> becomes \<^verbatim>\<open>user_account\<close>).
\<close>

definition upper_case :: string where
  "upper_case = ''ABCDEFGHIJKLMNOPQRSTUVWXYZ''"

definition lower_case :: string where
  "lower_case = ''abcdefghijklmnopqrstuvwxyz''"

definition to_lower :: "char \<Rightarrow> char" where
  "to_lower c = (case map_of (zip upper_case lower_case) c of Some l \<Rightarrow> l | None \<Rightarrow> c)"

fun snake_rest :: "string \<Rightarrow> string" where
  "snake_rest [] = []"
| "snake_rest (c # cs) =
     (if c \<in> set upper_case then CHR ''_'' # to_lower c # snake_rest cs
      else c # snake_rest cs)"

fun snake :: "string \<Rightarrow> string" where
  "snake [] = []"
| "snake (c # cs) = to_lower c # snake_rest cs"

text \<open>The types that the example methods mention, as reflection prints them.\<close>

definition error_type :: gotype where
  "error_type = \<lparr>type_Name = ''error'', type_String = ''error''\<rparr>"

definition string_type :: gotype where
  "string_type = \<lparr>type_Name = ''string'', type_String = ''string''\<rparr>"

definition int_type :: gotype where
  "int_type = \<lparr>type_Name = ''int'', type_String = ''int''\<rparr>"

definition Context_ptr_type :: gotype where
  "Context_ptr_type = \<lparr>type_Name = [], type_String = ''*routing.Context''\<rparr>"

definition User_type :: gotype where
  "User_type = \<lparr>type_Name = ''User'', type_String = ''main.User''\<rparr>"

text \<open>
  \<^verbatim>\<open>func (User) <name>(ctx *routing.Context) error\<close>, returning \<open>result\<close>;
  \<^verbatim>\<open>func (User) ShowParams() string\<close>, returning \<^verbatim>\<open>":id"\<close>;
  \<^verbatim>\<open>func (User) Helper(x int) string\<close>; and a value of type \<^verbatim>\<open>User\<close> with a given
  method set.
\<close>

definition action :: "string \<Rightarrow> string option \<Rightarrow> (unit, nat, string) Method" where
  "action name result =
     \<lparr>m_Name = name, m_In = [User_type, Context_ptr_type], m_Out = [error_type],
      m_Variadic = False, m_Func = (\<lambda>args. Inr [VError result])\<rparr>"

definition ShowParams :: "(unit, nat, string) Method" where
  "ShowParams =
     \<lparr>m_Name = ''ShowParams'', m_In = [User_type], m_Out = [string_type],
      m_Variadic = False, m_Func = (\<lambda>args. Inr [VString '':id''])\<rparr>"

definition Helper :: "(unit, nat, string) Method" where
  "Helper =
     \<lparr>m_Name = ''Helper'', m_In = [User_type, int_type], m_Out = [string_type],
      m_Variadic = False, m_Func = (\<lambda>args. Inr [VString ''help''])\<rparr>"

text \<open>
  \<^verbatim>\<open>func (User) BParams(xs ...int) (string, error)\<close>: a variadic sibling of a method
  \<^verbatim>\<open>B\<close>, with two results.
\<close>

definition int_slice_type :: gotype where
  "int_slice_type = \<lparr>type_Name = [], type_String = ''[]int''\<rparr>"

definition BParams :: "(unit, nat, string) Method" where
  "BParams =
     \<lparr>m_Name = ''BParams'', m_In = [User_type, int_slice_type],
      m_Out = [string_type, error_type],
      m_Variadic = True, m_Func = (\<lambda>args. Inr [VString '':id'', VError None])\<rparr>"

definition User :: "(unit, nat, string) Method list \<Rightarrow> (unit, nat, string) Controller" where
  "User ms = \<lparr>t_Name = ''User'', t_Methods = ms, receiver = ()\<rparr>"

text \<open>
  A router with its root group at address 0: empty prefix, an empty chain over an array of
  capacity 0. Reallocation leaves room for one more element.
\<close>

definition fresh_router :: "(unit, nat, string) state" where
  "fresh_router =
     \<lparr>arrays = (\<lambda>a. []), narrays = 1,
      groups = (\<lambda>g. \<lparr>prefix = [], router = 0, handlers = Slice 0 0\<rparr>), ngroups = 1,
      routes = (\<lambda>k. \<lparr>path = [], group = 0\<rparr>), nroutes = 0,
      regs = [],
      vars = (\<lambda>v. \<lparr>m_Name = [], m_In = [], m_Out = [], m_Variadic = False,
                     m_Func = (\<lambda>args. Inr [])\<rparr>),
      nvars = 0,
      growcap = (\<lambda>old need. need + 1)\<rparr>"

text \<open>A handler that fails with the error \<open>msg\<close>.\<close>

definition failing :: "string \<Rightarrow> (unit, nat, string) Handler" where
  "failing msg = GoFunc (\<lambda>ctx. Inr (Some msg))"

lemmas example_defs =
  standard_Methods_def upper_case_def lower_case_def to_lower_def
  error_type_def string_type_def int_type_def Context_ptr_type_def User_type_def
  action_def ShowParams_def Helper_def int_slice_type_def BParams_def User_def
  fresh_router_def failing_def

lemmas call_defs =
  Use_call_def Use_def Group_call_def Group_def Get_call_def Get_def Route_method_def
  variadic_def alloc_array_def make_slice_def append_slice_def newRouteGroup_def newRoute_def
  add_def Any_def To_def chain_def live_group_def Let_def

section \<open>Registration loops\<close>

lemma elems_add: "elems (add rt m hs st) hs' = elems st hs'"
  by (cases hs') (simp_all add: add_def)

lemma add_each_regs:
  "regs (add_each rt ms hs st) =
     regs st @ map (\<lambda>method. \<lparr>reg_route = rt, reg_method = method,
                                reg_handlers = elems st hs\<rparr>) ms"
proof (induction ms arbitrary: st)
  case Nil
  show ?case by simp
next
  case (Cons m ms)
  show ?case by (simp add: Cons.IH elems_add) (simp add: add_def)
qed

lemma add_each_frame:
  "arrays (add_each rt ms hs st) = arrays st"
  "narrays (add_each rt ms hs st) = narrays st"
  "groups (add_each rt ms hs st) = groups st"
  "ngroups (add_each rt ms hs st) = ngroups st"
  "routes (add_each rt ms hs st) = routes st"
  "nroutes (add_each rt ms hs st) = nroutes st"
  "vars (add_each rt ms hs st) = vars st"
  "nvars (add_each rt ms hs st) = nvars st"
  by (induction ms arbitrary: st) (simp_all add: add_def)

lemma elems_newRoute: "elems (snd (newRoute p r st)) hs = elems st hs"
  by (cases hs) (simp_all add: newRoute_def)

lemma Split_not_Nil: "Split s sep \<noteq> []"
  by (induction s) (auto split: list.splits)

lemma Join_Split: "Join (Split s sep) sep = s"
proof (induction s)
  case Nil
  show ?case by simp
next
  case (Cons c cs)
  obtain t ts where ts: "Split cs sep = t # ts"
    using Split_not_Nil[of cs sep] by (cases "Split cs sep") auto
  show ?case using Cons ts by (cases ts) auto
qed

lemma Split_no_sep: "sep \<notin> set (concat (Split s sep))"
  by (induction s) (auto split: list.splits)

section \<open>Slices and handler chains\<close>

lemma variadic_spec:
  "variadic xs st = (hs, st') \<Longrightarrow>
     elems st' hs = xs \<and> groups st' = groups st \<and> ngroups st' = ngroups st \<and>
     narrays st \<le> narrays st' \<and> (\<forall>a<narrays st. arrays st' a = arrays st a) \<and>
     valid_slice st' hs"
  by (auto simp: variadic_def alloc_array_def split: if_splits)

lemma valid_slice_mono:
  "valid_slice st t \<Longrightarrow> narrays st \<le> narrays st' \<Longrightarrow>
   (\<forall>a<narrays st. arrays st' a = arrays st a) \<Longrightarrow>
   valid_slice st' t \<and> elems st' t = elems st t"
  by (cases t) auto

lemma apart_sym: "apart s t = apart t s"
  by (cases s; cases t) auto

text \<open>
  \<^verbatim>\<open>append\<close> on a well-formed slice: the result holds the old elements and the new
  ones, and no slice over another array is touched, whether the append wrote in place or
  reallocated.
\<close>

lemma append_slice_spec:
  assumes v: "valid_slice st s" and r: "append_slice s xs st = (s', st')"
  shows "elems st' s' = elems st s @ xs"
    and "valid_slice st' s'"
    and "groups st' = groups st" and "ngroups st' = ngroups st"
    and "narrays st \<le> narrays st'"
    and "\<And>t. valid_slice st t \<Longrightarrow> apart s t \<Longrightarrow>
            elems st' t = elems st t \<and> valid_slice st' t \<and> apart s' t"
proof -
  note D = append_slice_def alloc_array_def Let_def
  show "elems st' s' = elems st s @ xs"
    using v r by (cases s) (auto simp: D split: if_splits)
  show "valid_slice st' s'"
    using v r by (cases s) (auto simp: D split: if_splits)
  show "groups st' = groups st" "ngroups st' = ngroups st" "narrays st \<le> narrays st'"
    using v r by (cases s; auto simp: D split: if_splits)+
  fix t assume "valid_slice st t" "apart s t"
  then show "elems st' t = elems st t \<and> valid_slice st' t \<and> apart s' t"
    using v r by (cases s; cases t) (auto simp: D split: if_splits)
qed

lemma Use_call_spec:
  assumes l: "live_group st r"
  shows "chain (Use_call r xs st) r = chain st r @ xs"
    and "live_group (Use_call r xs st) r"
    and "ngroups (Use_call r xs st) = ngroups st"
    and "\<And>q. q \<noteq> r \<Longrightarrow> live_group st q \<Longrightarrow>
            apart (handlers (groups st r)) (handlers (groups st q)) \<Longrightarrow>
            chain (Use_call r xs st) q = chain st q \<and> live_group (Use_call r xs st) q \<and>
            apart (handlers (groups (Use_call r xs st) r))
                  (handlers (groups (Use_call r xs st) q))"
proof -
  obtain hs st1 where va: "variadic xs st = (hs, st1)" by (cases "variadic xs st")
  note V = variadic_spec[OF va]
  let ?s = "handlers (groups st r)"
  obtain s' st2 where ap: "append_slice ?s xs st1 = (s', st2)"
    by (cases "append_slice ?s xs st1")
  have vs: "valid_slice st1 ?s" and es: "elems st1 ?s = elems st ?s"
    using valid_slice_mono[of st ?s st1] l V by (auto simp: live_group_def)
  note A = append_slice_spec[OF vs ap]
  have U: "Use_call r xs st = st2\<lparr>groups := (groups st2)(r := (groups st2 r)\<lparr>handlers := s'\<rparr>)\<rparr>"
    using va ap V by (simp add: Use_call_def Use_def)
  have el: "\<And>t. elems (Use_call r xs st) t = elems st2 t"
    subgoal for t by (cases t) (simp_all add: U) done
  have vl: "\<And>t. valid_slice (Use_call r xs st) t = valid_slice st2 t"
    subgoal for t by (cases t) (simp_all add: U) done
  show "chain (Use_call r xs st) r = chain st r @ xs"
    using A(1) es by (simp add: chain_def el) (simp add: U)
  show "live_group (Use_call r xs st) r"
    using A(2,4) V l by (simp add: live_group_def vl) (simp add: U)
  show "ngroups (Use_call r xs st) = ngroups st"
    using A(4) V by (simp add: U)
  fix q
  assume q: "q \<noteq> r" "live_group st q" "apart (handlers (groups st r)) (handlers (groups st q))"
  let ?t = "handlers (groups st q)"
  have vt: "valid_slice st1 ?t" and et: "elems st1 ?t = elems st ?t"
    using valid_slice_mono[of st ?t st1] q V by (auto simp: live_group_def)
  have gq: "handlers (groups (Use_call r xs st) q) = ?t"
    "handlers (groups (Use_call r xs st) r) = s'"
    using q(1) A(3) V by (simp_all add: U)
  from A(6)[OF vt q(3)] et
  show "chain (Use_call r xs st) q = chain st q \<and> live_group (Use_call r xs st) q \<and>
        apart (handlers (groups (Use_call r xs st) r)) (handlers (groups (Use_call r xs st) q))"
    using q(2) A(4) V by (simp add: chain_def live_group_def el vl gq) (simp add: U)
qed

lemma used_on_Cons:
  "used_on r ((q, xs) # calls) = (if q = r then xs @ used_on r calls else used_on r calls)"
  by (simp add: used_on_def)

text \<open>
  Two live groups whose slices are apart stay so under any sequence of \<^verbatim>\<open>Use\<close> calls on
  the two, and each chain grows by exactly the handlers passed to its own group.
\<close>

lemma Use_calls_two:
  assumes "live_group st g" "live_group st g2" "g \<noteq> g2"
    and "apart (handlers (groups st g)) (handlers (groups st g2))"
    and "\<forall>c\<in>set calls. fst c = g \<or> fst c = g2"
  shows "chain (Use_calls calls st) g = chain st g @ used_on g calls \<and>
         chain (Use_calls calls st) g2 = chain st g2 @ used_on g2 calls"
  using assms
proof (induction calls arbitrary: st)
  case Nil
  show ?case by (simp add: used_on_def)
next
  case (Cons c calls)
  obtain q xs where c: "c = (q, xs)" by (cases c)
  have q: "q = g \<or> q = g2" using Cons.prems(5) c by simp
  then show ?case
  proof
    assume qg: "q = g"
    let ?u = "Use_call g xs st"
    note U = Use_call_spec[OF Cons.prems(1), where xs = xs]
    have o: "chain ?u g2 = chain st g2 \<and> live_group ?u g2 \<and>
             apart (handlers (groups ?u g)) (handlers (groups ?u g2))"
      using U(4)[of g2] Cons.prems by simp
    have "chain (Use_calls calls ?u) g = chain ?u g @ used_on g calls \<and>
          chain (Use_calls calls ?u) g2 = chain ?u g2 @ used_on g2 calls"
      using Cons.IH[of ?u] U(2) o Cons.prems(3,5) by simp
    then show ?thesis using U(1) o Cons.prems(3) by (simp add: c qg used_on_Cons)
  next
    assume qg: "q = g2"
    let ?u = "Use_call g2 xs st"
    note U = Use_call_spec[OF Cons.prems(2), where xs = xs]
    have o: "chain ?u g = chain st g \<and> live_group ?u g \<and>
             apart (handlers (groups ?u g2)) (handlers (groups ?u g))"
      using U(4)[of g] Cons.prems by (simp add: apart_sym)
    have "chain (Use_calls calls ?u) g = chain ?u g @ used_on g calls \<and>
          chain (Use_calls calls ?u) g2 = chain ?u g2 @ used_on g2 calls"
      using Cons.IH[of ?u] U(2) o Cons.prems(3,5) by (simp add: apart_sym)
    then show ?thesis using U(1) o Cons.prems(3) by (simp add: c qg used_on_Cons)
  qed
qed

lemma Group_call_spec:
  assumes l: "live_group st g" and r: "Group_call g pfx xs st = (g2, st')"
  shows "g2 = ngroups st" and "g2 \<noteq> g"
    and "chain st' g2 = (if xs = [] then chain st g else xs)"
    and "chain st' g = chain st g"
    and "live_group st' g" and "live_group st' g2"
    and "apart (handlers (groups st' g)) (handlers (groups st' g2))"
proof -
  note D = Group_call_def Group_def variadic_def alloc_array_def make_slice_def
    newRouteGroup_def Let_def chain_def live_group_def
  show g2: "g2 = ngroups st"
    using r by (auto simp: D split: if_splits prod.splits)
  show "g2 \<noteq> g" using l g2 by (simp add: live_group_def)
  show "chain st' g2 = (if xs = [] then chain st g else xs)"
    using r l by (cases "handlers (groups st g)") (auto simp: D split: if_splits prod.splits)
  show "chain st' g = chain st g"
    using r l by (cases "handlers (groups st g)") (auto simp: D split: if_splits prod.splits)
  show "live_group st' g"
    using r l by (cases "handlers (groups st g)") (auto simp: D split: if_splits prod.splits)
  show "live_group st' g2"
    using r l by (cases "handlers (groups st g)") (auto simp: D split: if_splits prod.splits)
  show "apart (handlers (groups st' g)) (handlers (groups st' g2))"
    using r l by (cases "handlers (groups st g)") (auto simp: D split: if_splits prod.splits)
qed

lemma Group_call_prefix:
  "prefix (groups (snd (Group_call r pfx xs st)) (fst (Group_call r pfx xs st))) =
     prefix (groups st r) @ pfx"
  by (cases "handlers (groups st r)")
     (simp_all add: Group_call_def Group_def variadic_def alloc_array_def make_slice_def
        newRouteGroup_def Let_def split_beta)

lemma Get_call_path:
  "path (routes (snd (Get_call r p ys st)) (fst (Get_call r p ys st))) = prefix (groups st r) @ p"
  by (simp add: Get_call_def Get_def Route_method_def variadic_def alloc_array_def newRoute_def
        add_def split_beta)

section \<open>The scan of the controller\<close>

lemma index_past_end: "length r = 1 \<Longrightarrow> index r 1 = Inl (IndexOutOfRange 1 1)"
  by (simp add: index_def)

lemma params_uri_Inr: "params_uri c m uri = Inr u \<Longrightarrow> u = uri"
  by (auto simp: params_uri_def index_def split: option.splits sum.splits if_splits)

lemma register_one_spec:
  "vars (register_one M r uri rc m st) = (vars st)(nvars st := m)"
  "nvars (register_one M r uri rc m st) = nvars st + 1"
  "groups (register_one M r uri rc m st) = groups st"
  "ngroups (register_one M r uri rc m st) = ngroups st"
  "nroutes (register_one M r uri rc m st) = nroutes st + 1"
  "routes (register_one M r uri rc m st) =
     (routes st)(nroutes st := \<lparr>path = prefix (groups st r) @ uri, group = r\<rparr>)"
  "regs (register_one M r uri rc m st) =
     regs st @ map (\<lambda>method. \<lparr>reg_route = nroutes st, reg_method = method,
                                reg_handlers = [Closure rc (nvars st)]\<rparr>) M"
  by (simp_all add: register_one_def Any_def split_beta add_each_frame add_each_regs
        newRoute_def variadic_def alloc_array_def alloc_var_def)

lemma scan_Cons:
  "scan M us r c (m # ms) st =
     (if eligible m then
        (case params_uri c m (uri_of us c m) of
           Inl p \<Rightarrow> (Some p, snd (alloc_var m st))
         | Inr uri \<Rightarrow> scan M us r c ms (register_one M r uri (receiver c) m st))
      else scan M us r c ms (snd (alloc_var m st)))"
  by (simp add: alloc_var_def uri_of_def register_one_def split_beta split: sum.splits)

lemma alloc_var_spec:
  "vars (snd (alloc_var m st)) = (vars st)(nvars st := m)"
  "nvars (snd (alloc_var m st)) = nvars st + 1"
  "groups (snd (alloc_var m st)) = groups st"
  "ngroups (snd (alloc_var m st)) = ngroups st"
  "nroutes (snd (alloc_var m st)) = nroutes st"
  "routes (snd (alloc_var m st)) = routes st"
  "regs (snd (alloc_var m st)) = regs st"
  by (simp_all add: alloc_var_def)

lemma scan_inv:
  assumes "scan M us r c ms st = (res, st')"
  shows "nvars st \<le> nvars st' \<and> (\<forall>v<nvars st. vars st' v = vars st v) \<and>
         nroutes st \<le> nroutes st' \<and> (\<forall>k<nroutes st. routes st' k = routes st k) \<and>
         groups st' = groups st \<and> ngroups st' = ngroups st \<and>
         (\<exists>new. regs st' = regs st @ new \<and>
            (\<forall>rg\<in>set new. reg_method rg \<in> set M \<and> (\<exists>j. own us r c ms st st' rg j)) \<and>
            (res = None \<longrightarrow> (\<forall>j<length ms. eligible (ms ! j) \<longrightarrow>
               (\<forall>method\<in>set M. \<exists>rg\<in>set new. reg_method rg = method \<and> own us r c ms st st' rg j))))"
  using assms
proof (induction ms arbitrary: st)
  case Nil
  then show ?case by simp
next
  case (Cons m ms)
  show ?case
  proof (cases "eligible m")
    case False
    let ?s1 = "snd (alloc_var m st)"
    have sc: "scan M us r c ms ?s1 = (res, st')"
      using Cons.prems False by (simp add: scan_Cons del: scan.simps)
    from Cons.IH[OF sc] obtain new where
      F: "nvars ?s1 \<le> nvars st'" "\<forall>v<nvars ?s1. vars st' v = vars ?s1 v"
         "nroutes ?s1 \<le> nroutes st'" "\<forall>k<nroutes ?s1. routes st' k = routes ?s1 k"
         "groups st' = groups ?s1" "ngroups st' = ngroups ?s1"
      and N: "regs st' = regs ?s1 @ new"
        "\<forall>rg\<in>set new. reg_method rg \<in> set M \<and> (\<exists>j. own us r c ms ?s1 st' rg j)"
        "res = None \<longrightarrow> (\<forall>j<length ms. eligible (ms ! j) \<longrightarrow>
               (\<forall>method\<in>set M. \<exists>rg\<in>set new. reg_method rg = method \<and> own us r c ms ?s1 st' rg j))"
      by blast
    have shift: "\<And>rg j. own us r c ms ?s1 st' rg j \<Longrightarrow> own us r c (m # ms) st st' rg (Suc j)"
      by (simp add: own_def alloc_var_spec)
    have a: "\<forall>rg\<in>set new. reg_method rg \<in> set M \<and> (\<exists>j. own us r c (m # ms) st st' rg j)"
      using N(2) shift by blast
    have b: "res = None \<longrightarrow> (\<forall>j<length (m # ms). eligible ((m # ms) ! j) \<longrightarrow>
               (\<forall>method\<in>set M. \<exists>rg\<in>set new. reg_method rg = method \<and> own us r c (m # ms) st st' rg j))"
    proof (intro impI allI ballI)
      fix j mth
      assume h: "res = None" "j < length (m # ms)" "eligible ((m # ms) ! j)" "mth \<in> set M"
      then obtain j' where j': "j = Suc j'" using False by (cases j) auto
      then have "\<exists>rg\<in>set new. reg_method rg = mth \<and> own us r c ms ?s1 st' rg j'"
        using N(3) h by simp
      then show "\<exists>rg\<in>set new. reg_method rg = mth \<and> own us r c (m # ms) st st' rg j"
        using shift j' by blast
    qed
    have fr: "nvars st \<le> nvars st' \<and> (\<forall>v<nvars st. vars st' v = vars st v) \<and>
         nroutes st \<le> nroutes st' \<and> (\<forall>k<nroutes st. routes st' k = routes st k) \<and>
         groups st' = groups st \<and> ngroups st' = ngroups st"
      using F by (simp add: alloc_var_spec)
    have "regs st' = regs st @ new" using N(1) by (simp add: alloc_var_spec)
    then show ?thesis using fr a b by blast
  next
    case True
    show ?thesis
    proof (cases "params_uri c m (uri_of us c m)")
      case (Inl p)
      have e: "res = Some p" "st' = snd (alloc_var m st)"
        using Cons.prems True Inl by (simp_all add: scan_Cons del: scan.simps)
      show ?thesis by (simp add: e alloc_var_spec)
    next
      case (Inr uri)
      have u: "uri = uri_of us c m" using params_uri_Inr[OF Inr] .
      let ?s1 = "register_one M r uri (receiver c) m st"
      let ?new0 = "map (\<lambda>method. \<lparr>reg_route = nroutes st, reg_method = method,
                                reg_handlers = [Closure (receiver c) (nvars st)]\<rparr>) M"
      note R = register_one_spec
      have sc: "scan M us r c ms ?s1 = (res, st')"
        using Cons.prems True Inr by (simp add: scan_Cons del: scan.simps)
      from Cons.IH[OF sc] obtain new where
        F: "nvars ?s1 \<le> nvars st'" "\<forall>v<nvars ?s1. vars st' v = vars ?s1 v"
           "nroutes ?s1 \<le> nroutes st'" "\<forall>k<nroutes ?s1. routes st' k = routes ?s1 k"
           "groups st' = groups ?s1" "ngroups st' = ngroups ?s1"
        and N: "regs st' = regs ?s1 @ new"
          "\<forall>rg\<in>set new. reg_method rg \<in> set M \<and> (\<exists>j. own us r c ms ?s1 st' rg j)"
          "res = None \<longrightarrow> (\<forall>j<length ms. eligible (ms ! j) \<longrightarrow>
                 (\<forall>method\<in>set M. \<exists>rg\<in>set new. reg_method rg = method \<and> own us r c ms ?s1 st' rg j))"
        by blast
      have shift: "\<And>rg j. own us r c ms ?s1 st' rg j \<Longrightarrow> own us r c (m # ms) st st' rg (Suc j)"
        by (simp add: own_def R)
      have v0: "vars st' (nvars st) = m" using F(2) by (simp add: R)
      have r0: "routes st' (nroutes st) = \<lparr>path = prefix (groups st r) @ uri_of us c m, group = r\<rparr>"
        using F(4) by (simp add: R u)
      have n0: "nroutes st < nroutes st'" using F(3) by (simp add: R)
      have zero: "\<And>rg. rg \<in> set ?new0 \<Longrightarrow> reg_method rg \<in> set M \<and> own us r c (m # ms) st st' rg 0"
        using True v0 r0 n0 by (auto simp: own_def)
      have a: "\<forall>rg\<in>set (?new0 @ new). reg_method rg \<in> set M \<and> (\<exists>j. own us r c (m # ms) st st' rg j)"
        using N(2) shift zero by (metis Un_iff set_append)
      have b: "res = None \<longrightarrow> (\<forall>j<length (m # ms). eligible ((m # ms) ! j) \<longrightarrow>
               (\<forall>method\<in>set M. \<exists>rg\<in>set (?new0 @ new). reg_method rg = method \<and> own us r c (m # ms) st st' rg j))"
      proof (intro impI allI ballI)
        fix j mth
        assume h: "res = None" "j < length (m # ms)" "eligible ((m # ms) ! j)" "mth \<in> set M"
        show "\<exists>rg\<in>set (?new0 @ new). reg_method rg = mth \<and> own us r c (m # ms) st st' rg j"
        proof (cases j)
          case 0
          let ?rg = "\<lparr>reg_route = nroutes st, reg_method = mth,
                                reg_handlers = [Closure (receiver c) (nvars st)]\<rparr>"
          have m: "?rg \<in> set (?new0 @ new)" using h(4) by auto
          have "reg_method ?rg = mth \<and> own us r c (m # ms) st st' ?rg j"
            using zero[of ?rg] h(4) 0 by auto
          then show ?thesis using m by blast
        next
          case (Suc j')
          then have "\<exists>rg\<in>set new. reg_method rg = mth \<and> own us r c ms ?s1 st' rg j'"
            using N(3) h by simp
          then show ?thesis using shift Suc by auto
        qed
      qed
      have fr: "nvars st \<le> nvars st' \<and> (\<forall>v<nvars st. vars st' v = vars st v) \<and>
           nroutes st \<le> nroutes st' \<and> (\<forall>k<nroutes st. routes st' k = routes st k) \<and>
           groups st' = groups st \<and> ngroups st' = ngroups st"
        using F by (simp add: R)
      have "regs st' = regs st @ (?new0 @ new)" using N(1) by (simp add: R)
      then show ?thesis using fr a b by blast
    qed
  qed
qed

lemma RegisterController_regs:
  assumes "RegisterController Methods Underscore r c st = (res, st')"
    and "rg \<in> set (drop (length (regs st)) (regs st'))"
  shows "reg_method rg \<in> set Methods \<and> (\<exists>j. own Underscore r c (t_Methods c) st st' rg j)"
proof -
  from scan_inv[OF assms(1)[unfolded RegisterController_def]] obtain new where
    n: "regs st' = regs st @ new"
    "\<forall>rg\<in>set new. reg_method rg \<in> set Methods \<and>
        (\<exists>j. own Underscore r c (t_Methods c) st st' rg j)"
    by blast
  have "rg \<in> set new" using assms(2) n(1) by simp
  then show ?thesis using n(2) by blast
qed

text \<open>
  When the scan ends without panic, every method that passes the test has, for each entry
  of \<open>Methods\<close>, a registration of its own.
\<close>

lemma RegisterController_registers_eligible:
  assumes "RegisterController Methods Underscore r c st = (None, st')"
    and "j < length (t_Methods c)" and "eligible (t_Methods c ! j)" and "mth \<in> set Methods"
  shows "\<exists>rg\<in>set (drop (length (regs st)) (regs st')).
           reg_method rg = mth \<and> own Underscore r c (t_Methods c) st st' rg j"
proof -
  from scan_inv[OF assms(1)[unfolded RegisterController_def]] obtain new where
    n: "regs st' = regs st @ new"
    "\<forall>j<length (t_Methods c). eligible (t_Methods c ! j) \<longrightarrow>
       (\<forall>mth\<in>set Methods. \<exists>rg\<in>set new. reg_method rg = mth \<and>
          own Underscore r c (t_Methods c) st st' rg j)"
    by blast
  show ?thesis using n(2) assms(2,3,4) by (simp add: n(1))
qed

text \<open>A method that fails the test leaves routes and registrations as they are.\<close>

lemma not_eligible_skipped:
  assumes "\<not> eligible m"
  shows "scan Methods Underscore r c (m # ms) st =
           scan Methods Underscore r c ms (snd (alloc_var m st))"
    and "regs (snd (alloc_var m st)) = regs st"
    and "nroutes (snd (alloc_var m st)) = nroutes st"
    and "routes (snd (alloc_var m st)) = routes st"
  using assms by (simp_all add: scan_Cons alloc_var_spec del: scan.simps)

text \<open>
  The sibling \<^verbatim>\<open>Params\<close> method: a result of exactly one value ends in the panic of
  \<^verbatim>\<open>r[1]\<close>; a result of any other length leaves the URI as it is.
\<close>

lemma params_uri_one_result:
  assumes "MethodByName c (m_Name m @ ''Params'') = Some mt"
    and "Call mt [VController (receiver c)] = Inr [v]"
  shows "params_uri c m uri = Inl (IndexOutOfRange 1 1)"
  using assms by (simp add: params_uri_def index_def)

lemma params_uri_other_arity:
  assumes "MethodByName c (m_Name m @ ''Params'') = Some mt"
    and "Call mt [VController (receiver c)] = Inr vs" and "length vs \<noteq> 1"
  shows "params_uri c m uri = Inr uri"
  using assms by (simp add: params_uri_def)

text \<open>
  A variadic sibling is called without its variadic argument, as reflection allows. With
  \<^verbatim>\<open>BParams(xs ...int) (string, error)\<close> beside the methods \<^verbatim>\<open>A\<close> and \<^verbatim>\<open>B\<close> the call
  returns two values, the URI of \<^verbatim>\<open>B\<close> stays as it is, and the scan registers both methods.
\<close>

lemma Call_variadic_sibling:
  "m_Variadic mt \<Longrightarrow> length (m_In mt) = 2 \<Longrightarrow> Call mt [v] = m_Func mt [v]"
  by (simp add: Call_def)

lemma variadic_Params_sibling_scan:
  "fst (RegisterController Methods Underscore r
          (User [action ''A'' a, action ''B'' b, BParams]) st) = None \<and>
   nroutes (snd (RegisterController Methods Underscore r
          (User [action ''A'' a, action ''B'' b, BParams]) st)) = nroutes st + 2"
  by (simp add: RegisterController_def scan_Cons register_one_spec alloc_var_spec eligible_def
        params_uri_def MethodByName_def Call_def uri_of_def example_defs del: scan.simps(2))

lemma adapter_result:
  "eligible m \<Longrightarrow> m_Func m [VController rc, VContext ctx] = Inr [VError e] \<Longrightarrow>
   adapter rc m ctx = Inr e"
  by (cases e) (simp_all add: adapter_def Call_def eligible_def index_def)

lemma adapter_action: "adapter () (action name e) ctx = Inr e"
  by (rule adapter_result) (simp_all add: eligible_def example_defs)

lemmas scan_defs =
  RegisterController_def scan_Cons scan.simps(1) register_one_def alloc_var_def eligible_def
  params_uri_def MethodByName_def Call_def index_def uri_of_def

lemma Any_spec:
  "fst (Any Methods r p hs st) = nroutes st"
  "nroutes (snd (Any Methods r p hs st)) = nroutes st + 1"
  "routes (snd (Any Methods r p hs st)) =
     (routes st)(nroutes st := \<lparr>path = prefix (groups st r) @ p, group = r\<rparr>)"
  "regs (snd (Any Methods r p hs st)) =
     regs st @ map (\<lambda>method. \<lparr>reg_route = nroutes st, reg_method = method,
                                reg_handlers = elems st hs\<rparr>) Methods"
  by (simp_all add: Any_def split_beta add_each_regs add_each_frame elems_newRoute)
     (simp_all add: newRoute_def)

lemma To_spec:
  "fst (To r methods p hs st) = nroutes st"
  "nroutes (snd (To r methods p hs st)) = nroutes st + 1"
  "routes (snd (To r methods p hs st)) =
     (routes st)(nroutes st := \<lparr>path = prefix (groups st r) @ p, group = r\<rparr>)"
  "regs (snd (To r methods p hs st)) =
     regs st @ map (\<lambda>method. \<lparr>reg_route = nroutes st, reg_method = method,
                                reg_handlers = elems st hs\<rparr>) (Split methods (CHR '',''))"
  by (simp_all add: To_def split_beta add_each_regs add_each_frame elems_newRoute
        del: Split.simps)
     (simp_all add: newRoute_def)

section \<open>The properties of the specification\<close>

subsection \<open>Forking groups\<close>

text \<open>
  Claim C3. Forking without explicit handlers takes a snapshot. For a live group \<open>g\<close>:
  after \<^verbatim>\<open>g.Use(h1)\<close> and \<^verbatim>\<open>g2 = g.Group(pfx)\<close>, the calls \<^verbatim>\<open>g2.Use(h2)\<close> and
  \<^verbatim>\<open>g.Use(h3)\<close> leave \<open>g2\<close> with the chain that \<open>g\<close> had at the start followed by
  \<open>h1, h2\<close>, and \<open>g\<close> with that chain followed by \<open>h1, h3\<close>; for a group that starts
  without handlers these are \<open>[h1, h2]\<close> and \<open>[h1, h3]\<close>. More generally, after the fork
  every sequence of \<^verbatim>\<open>Use\<close> calls on the two groups appends to each chain exactly the
  handlers passed to that group, whether \<^verbatim>\<open>append\<close> writes in place or reallocates.
\<close>

theorem fork_without_handlers_is_snapshot:
  assumes "live_group st g"
    and "Group_call g pfx [] (Use_call g [h1] st) = (g2, st2)"
    and "\<forall>c\<in>set calls. fst c = g \<or> fst c = g2"
  shows "chain (Use_call g [h3] (Use_call g2 [h2] st2)) g2 = chain st g @ [h1, h2] \<and>
         chain (Use_call g [h3] (Use_call g2 [h2] st2)) g = chain st g @ [h1, h3] \<and>
         chain (Use_calls calls st2) g2 = chain st g @ [h1] @ used_on g2 calls \<and>
         chain (Use_calls calls st2) g = chain st g @ [h1] @ used_on g calls"
proof -
  note U = Use_call_spec[OF assms(1), where xs = "[h1]"]
  note G = Group_call_spec[OF U(2) assms(2)]
  have gen: "chain (Use_calls cs st2) g = chain st g @ [h1] @ used_on g cs \<and>
             chain (Use_calls cs st2) g2 = chain st g @ [h1] @ used_on g2 cs"
    if cs: "\<forall>c\<in>set cs. fst c = g \<or> fst c = g2" for cs
  proof -
    have "chain (Use_calls cs st2) g = chain st2 g @ used_on g cs \<and>
          chain (Use_calls cs st2) g2 = chain st2 g2 @ used_on g2 cs"
      using G(2) cs by (intro Use_calls_two[OF G(5) G(6) _ G(7)]) auto
    then show ?thesis using G(3,4) U(1) by simp
  qed
  have two: "chain (Use_calls [(g2, [h2]), (g, [h3])] st2) g =
               chain st g @ [h1] @ used_on g [(g2, [h2]), (g, [h3])] \<and>
             chain (Use_calls [(g2, [h2]), (g, [h3])] st2) g2 =
               chain st g @ [h1] @ used_on g2 [(g2, [h2]), (g, [h3])]"
    by (rule gen) simp
  show ?thesis using two gen[OF assms(3)] G(2) by (simp add: used_on_def)
qed

theorem fork_without_handlers_is_snapshot_witness:
  "live_group fresh_router 0 \<and>
   fst (Group_call 0 ''/v1'' [] (Use_call 0 [failing ''h1''] fresh_router)) = 1 \<and>
   chain (Use_call 0 [failing ''h3''] (Use_call 1 [failing ''h2'']
       (snd (Group_call 0 ''/v1'' [] (Use_call 0 [failing ''h1''] fresh_router))))) 1
     = [failing ''h1'', failing ''h2''] \<and>
   chain (Use_call 0 [failing ''h3''] (Use_call 1 [failing ''h2'']
       (snd (Group_call 0 ''/v1'' [] (Use_call 0 [failing ''h1''] fresh_router))))) 0
     = [failing ''h1'', failing ''h3''] \<and>
   chain (Use_calls [(0, [failing ''h4'']), (1, [failing ''h5'', failing ''h6''])]
       (snd (Group_call 0 ''/v1'' [] (Use_call 0 [failing ''h1''] fresh_router)))) 1
     = [failing ''h1'', failing ''h5'', failing ''h6''] \<and>
   chain (Use_calls [(0, [failing ''h4'']), (1, [failing ''h5'', failing ''h6''])]
       (snd (Group_call 0 ''/v1'' [] (Use_call 0 [failing ''h1''] fresh_router)))) 0
     = [failing ''h1'', failing ''h4'']"
proof -
  let ?G2 = "Group_call 0 ''/v1'' [] (Use_call 0 [failing ''h1''] fresh_router)"
  have l: "live_group fresh_router 0"
    by (simp add: live_group_def fresh_router_def)
  have g: "fst ?G2 = 1"
    by (simp add: call_defs fresh_router_def)
  have e: "?G2 = (1, snd ?G2)"
    using g by (metis prod.collapse)
  have c: "\<forall>c\<in>set [(0, [failing ''h4'']), (1, [failing ''h5'', failing ''h6''])].
             fst c = 0 \<or> fst c = (1::nat)"
    by simp
  have z: "chain fresh_router 0 = []"
    by (simp add: chain_def fresh_router_def)
  show ?thesis
    using fork_without_handlers_is_snapshot[OF l e c, of "failing ''h3''" "failing ''h2''"] l g
    by (simp add: z used_on_def)
qed

text \<open>
  Claim C4. Forking with an explicit, non-empty handler list discards inheritance: the
  chain of the new group is exactly the list passed to \<^verbatim>\<open>Group\<close>, whatever the chain of
  the parent, and no sequence of later \<^verbatim>\<open>Use\<close> calls on the parent changes it.
\<close>

theorem fork_with_handlers_discards_inheritance:
  assumes "live_group st g" and "xs \<noteq> []"
    and "Group_call g pfx xs st = (g2, st1)"
  shows "chain st1 g2 = xs \<and> chain (Use_calls (map (Pair g) uses) st1) g2 = xs"
proof -
  note G = Group_call_spec[OF assms(1) assms(3)]
  have "chain (Use_calls (map (Pair g) uses) st1) g =
          chain st1 g @ used_on g (map (Pair g) uses) \<and>
        chain (Use_calls (map (Pair g) uses) st1) g2 =
          chain st1 g2 @ used_on g2 (map (Pair g) uses)"
    using G(2) by (intro Use_calls_two[OF G(5) G(6) _ G(7)]) auto
  moreover have "used_on g2 (map (Pair g) uses) = []"
    using G(2) by (induction uses) (simp_all add: used_on_def)
  ultimately show ?thesis using G(3) assms(2) by simp
qed

theorem fork_with_handlers_discards_inheritance_witness:
  "live_group (Use_call 0 [failing ''h1''] fresh_router) 0 \<and> [failing ''h2''] \<noteq> [] \<and>
   chain (Use_call 0 [failing ''h1''] fresh_router) 0 = [failing ''h1''] \<and>
   fst (Group_call 0 ''/v1'' [failing ''h2''] (Use_call 0 [failing ''h1''] fresh_router)) = 1 \<and>
   chain (snd (Group_call 0 ''/v1'' [failing ''h2''] (Use_call 0 [failing ''h1''] fresh_router))) 1
     = [failing ''h2''] \<and>
   chain (Use_calls (map (Pair 0) [[failing ''h3''], [failing ''h4'', failing ''h5'']])
       (snd (Group_call 0 ''/v1'' [failing ''h2''] (Use_call 0 [failing ''h1''] fresh_router)))) 1
     = [failing ''h2'']"
proof -
  let ?st = "Use_call 0 [failing ''h1''] fresh_router"
  have l: "live_group ?st 0"
    by (simp add: call_defs fresh_router_def)
  have c: "chain ?st 0 = [failing ''h1'']"
    by (simp add: call_defs fresh_router_def)
  have g: "fst (Group_call 0 ''/v1'' [failing ''h2''] ?st) = 1"
    by (simp add: call_defs fresh_router_def)
  have e: "Group_call 0 ''/v1'' [failing ''h2''] ?st =
        (1, snd (Group_call 0 ''/v1'' [failing ''h2''] ?st))"
    using g by (metis prod.collapse)
  have n: "[failing ''h2''] \<noteq> []" by simp
  show ?thesis
    using fork_with_handlers_discards_inheritance[OF l n e,
        of "[[failing ''h3''], [failing ''h4'', failing ''h5'']]"] l c g
    by simp
qed

text \<open>
  Claim C9. Prefixes compose by plain concatenation, without normalization: the group
  made by \<^verbatim>\<open>r.Group(pfx, ...)\<close> has the prefix of \<open>r\<close> followed by \<open>pfx\<close>, and a route
  made by \<^verbatim>\<open>Get(p, ...)\<close> on that group has this prefix followed by \<open>p\<close> as its path. With
  the prefix \<^verbatim>\<open>/api\<close>, the suffix \<^verbatim>\<open>/v1\<close> and the path \<^verbatim>\<open>/x\<close> that is \<^verbatim>\<open>/api/v1/x\<close>.
\<close>

theorem prefixes_compose_by_concatenation:
  assumes "Group_call r pfx xs st = (g2, st1)"
    and "Get_call g2 p ys st1 = (route, st2)"
  shows "prefix (groups st1 g2) = prefix (groups st r) @ pfx \<and>
         path (routes st2 route) = prefix (groups st r) @ pfx @ p"
proof -
  have a: "prefix (groups st1 g2) = prefix (groups st r) @ pfx"
    using Group_call_prefix[of r pfx xs st] assms(1) by simp
  have b: "path (routes st2 route) = prefix (groups st1 g2) @ p"
    using Get_call_path[of g2 p ys st1] assms(2) by simp
  show ?thesis using a b by simp
qed

theorem prefixes_compose_by_concatenation_witness:
  "prefix (groups (snd (Group_call 0 ''/api'' [] fresh_router)) 1) = ''/api'' \<and>
   fst (Group_call 1 ''/v1'' [] (snd (Group_call 0 ''/api'' [] fresh_router))) = 2 \<and>
   prefix (groups (snd (Group_call 1 ''/v1'' [] (snd (Group_call 0 ''/api'' [] fresh_router)))) 2)
     = ''/api/v1'' \<and>
   path (routes (snd (Get_call 2 ''/x'' []
           (snd (Group_call 1 ''/v1'' [] (snd (Group_call 0 ''/api'' [] fresh_router))))))
         (fst (Get_call 2 ''/x'' []
           (snd (Group_call 1 ''/v1'' [] (snd (Group_call 0 ''/api'' [] fresh_router)))))))
     = ''/api/v1/x''"
proof -
  let ?s1 = "snd (Group_call 0 ''/api'' [] fresh_router)"
  let ?G2 = "Group_call 1 ''/v1'' [] ?s1"
  have p: "prefix (groups ?s1 1) = ''/api''"
    by (simp add: call_defs fresh_router_def)
  have g: "fst ?G2 = 2"
    by (simp add: call_defs fresh_router_def)
  have e: "?G2 = (2, snd ?G2)" using g by (metis prod.collapse)
  show ?thesis
    using prefixes_compose_by_concatenation[OF e surjective_pairing, of "''/x''" "[]"] p g
    by simp
qed

subsection \<open>Any and To\<close>

text \<open>
  Claim C7. \<^verbatim>\<open>Any(path, handlers...)\<close> creates one route, registers it once for each
  entry of \<open>Methods\<close>, in the order of \<open>Methods\<close>, every time with the same route and the
  same handlers, registers nothing else, and returns that route.
\<close>

theorem Any_registers_every_method_once:
  assumes "Any Methods r p hs st = (route, st')"
  shows "regs st' = regs st @ map (\<lambda>method. \<lparr>reg_route = route, reg_method = method,
                                               reg_handlers = elems st hs\<rparr>) Methods \<and>
         map reg_method (drop (length (regs st)) (regs st')) = Methods \<and>
         route = nroutes st \<and> nroutes st' = nroutes st + 1 \<and> group (routes st' route) = r"
proof -
  have e: "route = fst (Any Methods r p hs st)" "st' = snd (Any Methods r p hs st)"
    using assms by simp_all
  show ?thesis by (simp add: e Any_spec comp_def)
qed

theorem Any_registers_every_method_once_witness:
  "fst (Any standard_Methods 0 ''/x'' NilSlice fresh_router) = 0 \<and>
   regs (snd (Any standard_Methods 0 ''/x'' NilSlice fresh_router)) =
     [\<lparr>reg_route = 0, reg_method = ''GET'', reg_handlers = []\<rparr>,
      \<lparr>reg_route = 0, reg_method = ''POST'', reg_handlers = []\<rparr>,
      \<lparr>reg_route = 0, reg_method = ''PUT'', reg_handlers = []\<rparr>,
      \<lparr>reg_route = 0, reg_method = ''PATCH'', reg_handlers = []\<rparr>,
      \<lparr>reg_route = 0, reg_method = ''DELETE'', reg_handlers = []\<rparr>,
      \<lparr>reg_route = 0, reg_method = ''CONNECT'', reg_handlers = []\<rparr>,
      \<lparr>reg_route = 0, reg_method = ''HEAD'', reg_handlers = []\<rparr>,
      \<lparr>reg_route = 0, reg_method = ''OPTIONS'', reg_handlers = []\<rparr>,
      \<lparr>reg_route = 0, reg_method = ''TRACE'', reg_handlers = []\<rparr>] \<and>
   nroutes (snd (Any standard_Methods 0 ''/x'' NilSlice fresh_router)) = 1"
  using Any_registers_every_method_once[OF surjective_pairing,
      of standard_Methods 0 "''/x''" NilSlice fresh_router]
  by (simp add: standard_Methods_def) (simp add: fresh_router_def)

text \<open>
  Claim C8. \<^verbatim>\<open>To(methods, path, handlers...)\<close> registers the route for exactly the
  pieces of \<open>methods\<close> between its commas, in their order, each piece passed on as it is:
  the pieces joined by commas give \<open>methods\<close> back and no piece holds a comma. For
  \<^verbatim>\<open>GET,POST\<close> these are \<^verbatim>\<open>GET\<close> and \<^verbatim>\<open>POST\<close> and nothing else.
\<close>

theorem To_registers_the_split_methods:
  assumes "To r methods p hs st = (route, st')"
  shows "regs st' = regs st @ map (\<lambda>method. \<lparr>reg_route = route, reg_method = method,
                                               reg_handlers = elems st hs\<rparr>)
                                   (Split methods (CHR '','')) \<and>
         map reg_method (drop (length (regs st)) (regs st')) = Split methods (CHR '','') \<and>
         Join (Split methods (CHR '','')) (CHR '','') = methods \<and>
         CHR '','' \<notin> set (concat (Split methods (CHR '','')))"
proof -
  have e: "route = fst (To r methods p hs st)" "st' = snd (To r methods p hs st)"
    using assms by simp_all
  show ?thesis
    by (simp add: e To_spec comp_def Join_Split Split_no_sep del: Split.simps set_concat)
qed

theorem To_registers_the_split_methods_witness:
  "regs (snd (To 0 ''GET,POST'' ''/x'' NilSlice fresh_router)) =
     [\<lparr>reg_route = 0, reg_method = ''GET'', reg_handlers = []\<rparr>,
      \<lparr>reg_route = 0, reg_method = ''POST'', reg_handlers = []\<rparr>] \<and>
   ''PUT'' \<notin> set (map reg_method (regs (snd (To 0 ''GET,POST'' ''/x'' NilSlice fresh_router)))) \<and>
   map reg_method (regs (snd (To 0 ''get, Post,,?'' ''/x'' NilSlice fresh_router))) =
     [''get'', '' Post'', [], ''?'']"
proof -
  have a: "regs (snd (To 0 ''GET,POST'' ''/x'' NilSlice fresh_router)) =
     [\<lparr>reg_route = 0, reg_method = ''GET'', reg_handlers = []\<rparr>,
      \<lparr>reg_route = 0, reg_method = ''POST'', reg_handlers = []\<rparr>]"
    using To_registers_the_split_methods[OF surjective_pairing,
      of 0 "''GET,POST''" "''/x''" NilSlice fresh_router]
    by simp (simp add: To_def newRoute_def fresh_router_def)
  have b: "map reg_method (regs (snd (To 0 ''get, Post,,?'' ''/x'' NilSlice fresh_router))) =
     [''get'', '' Post'', [], ''?'']"
    using To_registers_the_split_methods[OF surjective_pairing,
      of 0 "''get, Post,,?''" "''/x''" NilSlice fresh_router]
    by simp (simp add: fresh_router_def)
  show ?thesis using a b by simp
qed

text \<open>
  Claim C10. \<^verbatim>\<open>To\<close> with the empty string as its methods neither rejects the call nor
  skips the registration: it creates the route and registers it exactly once, under the
  empty method name, which is none of the HTTP methods.
\<close>

theorem To_with_empty_methods_registers_once:
  assumes "To r [] p hs st = (route, st')"
  shows "regs st' =
           regs st @ [\<lparr>reg_route = route, reg_method = [], reg_handlers = elems st hs\<rparr>] \<and>
         length (regs st') = length (regs st) + 1 \<and>
         route = nroutes st \<and> nroutes st' = nroutes st + 1 \<and>
         [] \<notin> set standard_Methods"
proof -
  have e: "route = fst (To r [] p hs st)" "st' = snd (To r [] p hs st)"
    using assms by simp_all
  show ?thesis by (simp add: e To_spec standard_Methods_def)
qed

theorem To_with_empty_methods_registers_once_witness:
  "fst (To 0 [] ''/x'' NilSlice fresh_router) = 0 \<and>
   regs (snd (To 0 [] ''/x'' NilSlice fresh_router)) =
     [\<lparr>reg_route = 0, reg_method = [], reg_handlers = []\<rparr>] \<and>
   nroutes (snd (To 0 [] ''/x'' NilSlice fresh_router)) = 1"
  using To_with_empty_methods_registers_once[OF surjective_pairing,
      of 0 "''/x''" NilSlice fresh_router]
  by simp (simp add: fresh_router_def)

subsection \<open>The controller registrar\<close>

text \<open>
  Claim C1. For the controller \<^verbatim>\<open>User\<close> with \<^verbatim>\<open>Show(ctx) error\<close> and
  \<^verbatim>\<open>ShowParams() string\<close> the specification expects a route at \<^verbatim>\<open>/user/show/:id\<close>. The
  code reaches \<^verbatim>\<open>r[1]\<close> on a result of length 1: \<^verbatim>\<open>RegisterController\<close> ends in the
  panic \<^verbatim>\<open>index out of range [1] with length 1\<close>, with no route created and nothing
  registered, for every group, method list and naming function.
\<close>

theorem Params_sibling_makes_registration_panic:
  "RegisterController Methods Underscore r (User [action ''Show'' e, ShowParams]) st =
     (Some (IndexOutOfRange 1 1), snd (alloc_var (action ''Show'' e) st)) \<and>
   regs (snd (RegisterController Methods Underscore r
                (User [action ''Show'' e, ShowParams]) st)) = regs st \<and>
   nroutes (snd (RegisterController Methods Underscore r
                (User [action ''Show'' e, ShowParams]) st)) = nroutes st"
  by (simp add: scan_defs example_defs del: scan.simps(2))

text \<open>
  Claim C5. The specification expects a route for a method exactly when it takes one
  request context and returns one error. In the controller with \<^verbatim>\<open>Helper(x int) string\<close>,
  \<^verbatim>\<open>Show(ctx) error\<close> and \<^verbatim>\<open>ShowParams() string\<close> the method \<^verbatim>\<open>Show\<close> passes the test
  and the other two fail it, yet the scan ends in the panic of \<^verbatim>\<open>r[1]\<close> and \<^verbatim>\<open>Show\<close> is
  left without a route.
\<close>

theorem eligible_method_is_left_without_route:
  "eligible (action ''Show'' e) \<and> \<not> eligible Helper \<and> \<not> eligible ShowParams \<and>
   fst (RegisterController Methods Underscore r
          (User [Helper, action ''Show'' e, ShowParams]) st) = Some (IndexOutOfRange 1 1) \<and>
   regs (snd (RegisterController Methods Underscore r
          (User [Helper, action ''Show'' e, ShowParams]) st)) = regs st \<and>
   nroutes (snd (RegisterController Methods Underscore r
          (User [Helper, action ''Show'' e, ShowParams]) st)) = nroutes st"
  by (simp add: scan_defs example_defs del: scan.simps(2))

text \<open>
  Claim C2. Every registration that \<^verbatim>\<open>RegisterController\<close> makes belongs to one
  iteration \<open>j\<close> of its scan: the route has the URI of method \<open>j\<close>, the only handler is the
  closure over the variable \<^verbatim>\<open>method\<close> of that iteration, that variable still holds
  method \<open>j\<close> when the scan is over, and so the handler, run on any context, runs method
  \<open>j\<close> of this controller. This holds for any order of the methods; no handler runs the
  method found last in place of its own.
\<close>

theorem generated_handler_invokes_its_own_method:
  assumes "RegisterController Methods Underscore r c st = (res, st')"
    and "rg \<in> set (drop (length (regs st)) (regs st'))"
  shows "\<exists>j h. own Underscore r c (t_Methods c) st st' rg j \<and> reg_handlers rg = [h] \<and>
           (\<forall>ctx. call_handler st' h ctx = adapter (receiver c) (t_Methods c ! j) ctx)"
proof -
  obtain j where j: "own Underscore r c (t_Methods c) st st' rg j"
    using RegisterController_regs[OF assms] by blast
  let ?h = "Closure (receiver c) (nvars st + j)"
  have "reg_handlers rg = [?h]" "vars st' (nvars st + j) = t_Methods c ! j"
    using j by (simp_all add: own_def)
  then have "reg_handlers rg = [?h] \<and>
      (\<forall>ctx. call_handler st' ?h ctx = adapter (receiver c) (t_Methods c ! j) ctx)"
    by simp
  then show ?thesis using j by blast
qed

theorem generated_handler_invokes_its_own_method_witness:
  "\<lparr>reg_route = 0, reg_method = ''PUT'', reg_handlers = [Closure () 0]\<rparr>
     \<in> set (drop (length (regs fresh_router))
          (regs (snd (RegisterController standard_Methods snake 0
             (User [action ''A'' (Some ''a failed''), action ''B'' (Some ''b failed'')])
             fresh_router)))) \<and>
   \<lparr>reg_route = 1, reg_method = ''PUT'', reg_handlers = [Closure () 1]\<rparr>
     \<in> set (drop (length (regs fresh_router))
          (regs (snd (RegisterController standard_Methods snake 0
             (User [action ''A'' (Some ''a failed''), action ''B'' (Some ''b failed'')])
             fresh_router)))) \<and>
   routes (snd (RegisterController standard_Methods snake 0
             (User [action ''A'' (Some ''a failed''), action ''B'' (Some ''b failed'')])
             fresh_router)) 0 = \<lparr>path = ''/user/a'', group = 0\<rparr> \<and>
   call_handler (snd (RegisterController standard_Methods snake 0
             (User [action ''A'' (Some ''a failed''), action ''B'' (Some ''b failed'')])
             fresh_router)) (Closure () 0) 7 = Inr (Some ''a failed'') \<and>
   routes (snd (RegisterController standard_Methods snake 0
             (User [action ''A'' (Some ''a failed''), action ''B'' (Some ''b failed'')])
             fresh_router)) 1 = \<lparr>path = ''/user/b'', group = 0\<rparr> \<and>
   call_handler (snd (RegisterController standard_Methods snake 0
             (User [action ''A'' (Some ''a failed''), action ''B'' (Some ''b failed'')])
             fresh_router)) (Closure () 1) 7 = Inr (Some ''b failed'') \<and>
   \<lparr>reg_route = 0, reg_method = ''PUT'', reg_handlers = [Closure () 0]\<rparr>
     \<in> set (drop (length (regs fresh_router))
          (regs (snd (RegisterController standard_Methods snake 0
             (User [action ''B'' (Some ''b failed''), action ''A'' (Some ''a failed'')])
             fresh_router)))) \<and>
   routes (snd (RegisterController standard_Methods snake 0
             (User [action ''B'' (Some ''b failed''), action ''A'' (Some ''a failed'')])
             fresh_router)) 0 = \<lparr>path = ''/user/b'', group = 0\<rparr> \<and>
   call_handler (snd (RegisterController standard_Methods snake 0
             (User [action ''B'' (Some ''b failed''), action ''A'' (Some ''a failed'')])
             fresh_router)) (Closure () 0) 7 = Inr (Some ''b failed'')"
proof -
  let ?c = "User [action ''A'' (Some ''a failed''), action ''B'' (Some ''b failed'')]"
  let ?d = "User [action ''B'' (Some ''b failed''), action ''A'' (Some ''a failed'')]"
  let ?S = "RegisterController standard_Methods snake 0 ?d fresh_router"
  let ?R = "RegisterController standard_Methods snake 0 ?c fresh_router"
  let ?A = "\<lparr>reg_route = 0, reg_method = ''PUT'', reg_handlers = [Closure () 0]\<rparr>
             :: (unit, nat, string) registration"
  let ?B = "\<lparr>reg_route = 1, reg_method = ''PUT'', reg_handlers = [Closure () 1]\<rparr>
             :: (unit, nat, string) registration"
  have rs: "regs (snd ?R) =
      map (\<lambda>m. \<lparr>reg_route = 0, reg_method = m, reg_handlers = [Closure () 0]\<rparr>)
        standard_Methods @
      map (\<lambda>m. \<lparr>reg_route = 1, reg_method = m, reg_handlers = [Closure () 1]\<rparr>)
        standard_Methods"
    by (simp add: scan_defs example_defs call_defs del: scan.simps(2))
  have z: "regs fresh_router = []" "nvars fresh_router = 0"
    "prefix (groups fresh_router 0) = []"
    by (simp_all add: fresh_router_def)
  have ma: "?A \<in> set (drop (length (regs fresh_router)) (regs (snd ?R)))"
    by (simp add: rs z) (simp add: standard_Methods_def)
  have mb: "?B \<in> set (drop (length (regs fresh_router)) (regs (snd ?R)))"
    by (simp add: rs z) (simp add: standard_Methods_def)
  from generated_handler_invokes_its_own_method[OF surjective_pairing ma]
  obtain j h where a: "own snake 0 ?c (t_Methods ?c) fresh_router (snd ?R) ?A j"
    "reg_handlers ?A = [h]"
    "\<forall>ctx. call_handler (snd ?R) h ctx = adapter (receiver ?c) (t_Methods ?c ! j) ctx"
    by blast
  have j0: "j = 0" using a(1) by (simp add: own_def z)
  have ra: "routes (snd ?R) 0 = \<lparr>path = ''/user/a'', group = 0\<rparr>"
    using a(1) by (simp add: own_def z j0 uri_of_def) (simp add: example_defs)
  have ha: "call_handler (snd ?R) (Closure () 0) 7 = Inr (Some ''a failed'')"
    using a(2,3) by (simp add: j0 User_def adapter_action)
  from generated_handler_invokes_its_own_method[OF surjective_pairing mb]
  obtain k g where b: "own snake 0 ?c (t_Methods ?c) fresh_router (snd ?R) ?B k"
    "reg_handlers ?B = [g]"
    "\<forall>ctx. call_handler (snd ?R) g ctx = adapter (receiver ?c) (t_Methods ?c ! k) ctx"
    by blast
  have k1: "k = 1" using b(1) by (simp add: own_def z)
  have rb: "routes (snd ?R) 1 = \<lparr>path = ''/user/b'', group = 0\<rparr>"
    using b(1) by (simp add: own_def z k1 uri_of_def) (simp add: example_defs)
  have hb: "call_handler (snd ?R) (Closure () 1) 7 = Inr (Some ''b failed'')"
    using b(2,3) by (simp add: k1 User_def adapter_action)
  have ss: "regs (snd ?S) =
      map (\<lambda>m. \<lparr>reg_route = 0, reg_method = m, reg_handlers = [Closure () 0]\<rparr>)
        standard_Methods @
      map (\<lambda>m. \<lparr>reg_route = 1, reg_method = m, reg_handlers = [Closure () 1]\<rparr>)
        standard_Methods"
    by (simp add: scan_defs example_defs call_defs del: scan.simps(2))
  have md: "?A \<in> set (drop (length (regs fresh_router)) (regs (snd ?S)))"
    by (simp add: ss z) (simp add: standard_Methods_def)
  from generated_handler_invokes_its_own_method[OF surjective_pairing md]
  obtain i f where d: "own snake 0 ?d (t_Methods ?d) fresh_router (snd ?S) ?A i"
    "reg_handlers ?A = [f]"
    "\<forall>ctx. call_handler (snd ?S) f ctx = adapter (receiver ?d) (t_Methods ?d ! i) ctx"
    by blast
  have i0: "i = 0" using d(1) by (simp add: own_def z)
  have rd: "routes (snd ?S) 0 = \<lparr>path = ''/user/b'', group = 0\<rparr>"
    using d(1) by (simp add: own_def z i0 uri_of_def) (simp add: example_defs)
  have hd: "call_handler (snd ?S) (Closure () 0) 7 = Inr (Some ''b failed'')"
    using d(2,3) by (simp add: i0 User_def adapter_action)
  show ?thesis using ma mb ra ha rb hb md rd hd by blast
qed

text \<open>
  Claim C6. The handler of every registration that \<^verbatim>\<open>RegisterController\<close> makes
  returns the result of its method unchanged: the registration belongs to a method of the
  controller that passed the test, at the URI of that method, and whenever the method,
  called on the controller and the context, returns the error value \<open>e\<close> (nil or not),
  the handler returns \<open>e\<close>.
\<close>

theorem generated_handler_returns_the_error_unchanged:
  assumes "RegisterController Methods Underscore r c st = (res, st')"
    and "rg \<in> set (drop (length (regs st)) (regs st'))"
  shows "\<exists>m h. m \<in> set (t_Methods c) \<and> eligible m \<and> reg_handlers rg = [h] \<and>
           path (routes st' (reg_route rg)) = prefix (groups st r) @ uri_of Underscore c m \<and>
           (\<forall>ctx e. m_Func m [VController (receiver c), VContext ctx] = Inr [VError e] \<longrightarrow>
                     call_handler st' h ctx = Inr e)"
proof -
  obtain j where j: "own Underscore r c (t_Methods c) st st' rg j"
    using RegisterController_regs[OF assms] by blast
  let ?m = "t_Methods c ! j"
  let ?h = "Closure (receiver c) (nvars st + j)"
  have m: "?m \<in> set (t_Methods c)" "eligible ?m" "reg_handlers rg = [?h]"
    "vars st' (nvars st + j) = ?m"
    "path (routes st' (reg_route rg)) = prefix (groups st r) @ uri_of Underscore c ?m"
    using j by (simp_all add: own_def)
  have "\<forall>ctx e. m_Func ?m [VController (receiver c), VContext ctx] = Inr [VError e] \<longrightarrow>
                     call_handler st' ?h ctx = Inr e"
    using m(2,4) by (simp add: adapter_result)
  then show ?thesis using m(1,2,3,5) by blast
qed

theorem generated_handler_returns_the_error_unchanged_witness:
  "\<lparr>reg_route = 0, reg_method = ''GET'', reg_handlers = [Closure () 1]\<rparr>
     \<in> set (drop (length (regs fresh_router))
          (regs (snd (RegisterController standard_Methods snake 0
             (User [Helper, action ''Show'' (Some ''not found'')]) fresh_router)))) \<and>
   path (routes (snd (RegisterController standard_Methods snake 0
             (User [Helper, action ''Show'' (Some ''not found'')]) fresh_router)) 0)
     = ''/user/show'' \<and>
   call_handler (snd (RegisterController standard_Methods snake 0
             (User [Helper, action ''Show'' (Some ''not found'')]) fresh_router))
       (Closure () 1) 7 = Inr (Some ''not found'') \<and>
   \<lparr>reg_route = 0, reg_method = ''GET'', reg_handlers = [Closure () 1]\<rparr>
     \<in> set (drop (length (regs fresh_router))
          (regs (snd (RegisterController standard_Methods snake 0
             (User [Helper, action ''Show'' None]) fresh_router)))) \<and>
   call_handler (snd (RegisterController standard_Methods snake 0
             (User [Helper, action ''Show'' None]) fresh_router))
       (Closure () 1) 7 = Inr None"
proof -
  have z: "regs fresh_router = []" "nvars fresh_router = 0" "prefix (groups fresh_router 0) = []"
    by (simp_all add: fresh_router_def)
  have one: "\<lparr>reg_route = 0, reg_method = ''GET'', reg_handlers = [Closure () 1]\<rparr>
        \<in> set (drop (length (regs fresh_router))
          (regs (snd (RegisterController standard_Methods snake 0
             (User [Helper, action ''Show'' e]) fresh_router)))) \<and>
      path (routes (snd (RegisterController standard_Methods snake 0
             (User [Helper, action ''Show'' e]) fresh_router)) 0) = ''/user/show'' \<and>
      call_handler (snd (RegisterController standard_Methods snake 0
             (User [Helper, action ''Show'' e]) fresh_router)) (Closure () 1) 7 = Inr e"
    for e :: "string option"
  proof -
    let ?c = "User [Helper, action ''Show'' e]"
    let ?R = "RegisterController standard_Methods snake 0 ?c fresh_router"
    let ?rg = "\<lparr>reg_route = 0, reg_method = ''GET'', reg_handlers = [Closure () 1]\<rparr>
               :: (unit, nat, string) registration"
    have rs: "regs (snd ?R) =
        map (\<lambda>m. \<lparr>reg_route = 0, reg_method = m, reg_handlers = [Closure () 1]\<rparr>)
          standard_Methods"
      by (simp add: scan_defs example_defs call_defs del: scan.simps(2))
    have mem: "?rg \<in> set (drop (length (regs fresh_router)) (regs (snd ?R)))"
      by (simp add: rs z) (simp add: standard_Methods_def)
    from generated_handler_returns_the_error_unchanged[OF surjective_pairing mem]
    obtain m h where a: "m \<in> set (t_Methods ?c)" "eligible m" "reg_handlers ?rg = [h]"
      "path (routes (snd ?R) (reg_route ?rg)) = prefix (groups fresh_router 0) @ uri_of snake ?c m"
      "\<forall>ctx e'. m_Func m [VController (receiver ?c), VContext ctx] = Inr [VError e'] \<longrightarrow>
                     call_handler (snd ?R) h ctx = Inr e'"
      by blast
    have m: "m = action ''Show'' e"
      using a(1,2) by (auto simp: User_def) (simp add: eligible_def Helper_def string_type_def)
    have p: "path (routes (snd ?R) 0) = ''/user/show''"
      using a(4) by (simp add: m z uri_of_def) (simp add: example_defs)
    have "m_Func m [VController (receiver ?c), VContext 7] = Inr [VError e]"
      by (simp add: m action_def)
    then have "call_handler (snd ?R) h 7 = Inr e" using a(5) by blast
    then have c: "call_handler (snd ?R) (Closure () 1) 7 = Inr e" using a(3) by simp
    show ?thesis using mem p c by blast
  qed
  show ?thesis using one[of "Some ''not found''"] one[of None] by blast
qed

end
